theory Spec2Isabelle
  imports Main "HOL-Library.Multiset" "HOL-Library.Sublist"
begin

section \<open>Data model (internal/models/models.go)\<close>

text \<open>
  The payload type \<open>'p\<close> stands for Go's \<open>map[string]interface{}\<close>; the service never
  looks inside a payload, it only hands it to \<open>json.Marshal\<close>.  Go's \<open>error\<close> interface is
  modelled by its text (\<open>err.Error()\<close>), \<open>nil\<close> by \<open>None\<close>; a \<open>json.RawMessage\<close> is a byte
  string, \<open>nil\<close> again \<open>None\<close>.  Positions and counters are natural numbers: they are
  bounded by the length of a slice, so Go's \<open>int\<close> never wraps on them.
\<close>

record 'p request =
  WebhookURL :: string
  AuthHeader :: string
  Payloads :: "'p list"
  Timeout :: int

record 'p task =
  t_Index :: nat
  t_WebhookURL :: string
  t_AuthHeader :: string
  t_Payload :: 'p
  t_TimeoutSec :: int

text \<open>\<open>WebhookExecutionResult\<close>, the executor's own result.\<close>

record exec_result =
  Index :: nat
  Success :: bool
  Response :: "string option"
  Error :: "string option"
  Duration :: int
  IsTimeout :: bool

text \<open>\<open>WebhookResult\<close>, the entry of the response.\<close>

record webhook_result =
  wr_Index :: nat
  wr_Success :: bool
  wr_Response :: "string option"
  wr_Error :: string
  wr_Duration :: int

record summary =
  TotalRequests :: nat
  SuccessfulRequests :: nat
  FailedRequests :: nat
  TimeoutRequests :: nat
  TotalDuration :: int

record response =
  Results :: "webhook_result list"
  Summary :: summary

text \<open>The zero value Go's \<open>make\<close> fills a slice of results with.\<close>

definition zero_exec_result :: exec_result where
  "zero_exec_result =
     \<lparr>Index = 0, Success = False, Response = None, Error = None, Duration = 0, IsTimeout = False\<rparr>"

text \<open>A store \<open>xs[i] = v\<close> into a slice: Go panics when the index is out of range.\<close>

definition store :: "'a list \<Rightarrow> nat \<Rightarrow> 'a \<Rightarrow> 'a list option" where
  "store xs i v = (if i < length xs then Some (xs[i := v]) else None)"

section \<open>The outside world of one task\<close>

text \<open>
  The library calls of \<open>executeTask\<close> are parameters of the model.  \<open>json_Marshal\<close> and
  \<open>url_error\<close> give the outcome of \<open>json.Marshal\<close> and the error (if any) with which
  \<open>http.NewRequestWithContext\<close> refuses a URL; \<open>client_Do i req\<close> is what the network answers
  to the call of task \<open>i\<close>, together with \<open>taskCtx.Err()\<close> as the task reads it after a failed
  call; \<open>since_start i\<close> is the one reading \<open>time.Since(startTime).Milliseconds()\<close> that task
  \<open>i\<close> makes, \<open>batch_since_start\<close> the reading of \<open>ExecuteParallel\<close>.  The body of a
  response is read under the same \<open>taskCtx\<close>: \<open>body_ctx_err i\<close> is what \<open>taskCtx.Err()\<close>
  would give when the body read of task \<open>i\<close> returns.  \<open>executeTask\<close> never asks for it.
  A world fixes what happens to each task; the theorems hold for every world, hence for
  whatever the network does in an execution.
\<close>

datatype ctx_err = CtxNil | Canceled | DeadlineExceeded

record http_request =
  req_timeout_sec :: int
  req_method :: string
  req_url :: string
  req_header :: "string \<rightharpoonup> string"
  req_body :: string

text \<open>A response: its status code, and what reading its body to the end gives
  (\<open>Inl\<close> the read error, \<open>Inr\<close> the bytes).\<close>

record http_response =
  StatusCode :: int
  Body :: "string + string"

datatype do_result = DoError string ctx_err | DoResponse http_response

record 'p world =
  json_Marshal :: "'p \<Rightarrow> string + string"
  url_error :: "string \<Rightarrow> string option"
  client_Do :: "nat \<Rightarrow> http_request \<Rightarrow> do_result"
  since_start :: "nat \<Rightarrow> int"
  batch_since_start :: int
  body_ctx_err :: "nat \<Rightarrow> ctx_err"

section \<open>Formatting (\<open>%d\<close> of \<open>fmt.Errorf\<close>)\<close>

fun digits :: "nat \<Rightarrow> string" where
  "digits n =
     (if n < 10 then [''0123456789'' ! n]
      else digits (n div 10) @ [''0123456789'' ! (n mod 10)])"

declare digits.simps [simp del]

definition itoa :: "int \<Rightarrow> string" where
  "itoa i = (if i < 0 then CHR ''-'' # digits (nat (- i)) else digits (nat i))"

section \<open>The task executor (\<open>executeTask\<close>)\<close>

text \<open>\<open>http.NewRequestWithContext(taskCtx, method, url, body)\<close>; the context carries the
  task's timeout.\<close>

definition NewRequestWithContext ::
  "'p world \<Rightarrow> int \<Rightarrow> string \<Rightarrow> string \<Rightarrow> string \<Rightarrow> string + http_request" where
  "NewRequestWithContext w timeout_sec method url body =
     (case url_error w url of
        Some err \<Rightarrow> Inl err
      | None \<Rightarrow> Inr \<lparr>req_timeout_sec = timeout_sec, req_method = method, req_url = url,
                     req_header = Map.empty, req_body = body\<rparr>)"

definition Header_Set :: "http_request \<Rightarrow> string \<Rightarrow> string \<Rightarrow> http_request" where
  "Header_Set req k v = req\<lparr>req_header := (req_header req)(k \<mapsto> v)\<rparr>"

text \<open>
  \<open>executeTask_io\<close> is \<open>executeTask\<close> together with its effect on the network: the list of
  the requests it handed to \<open>client.Do\<close>.  The calls of the logger write to the injected
  logger (\<open>main\<close> constructs it) and leave the result alone; they are not modelled.
\<close>

definition executeTask_io :: "'p world \<Rightarrow> 'p task \<Rightarrow> exec_result \<times> http_request list" where
  "executeTask_io w task =
     (let result = zero_exec_result\<lparr>Index := t_Index task\<rparr> in
      case json_Marshal w (t_Payload task) of
        Inl err \<Rightarrow>
          (result\<lparr>Error := Some (''failed to marshal payload: '' @ err),
                  Duration := since_start w (t_Index task)\<rparr>, [])
      | Inr payloadBytes \<Rightarrow>
          (case NewRequestWithContext w (t_TimeoutSec task) ''POST'' (t_WebhookURL task)
                  payloadBytes of
             Inl err \<Rightarrow>
               (result\<lparr>Error := Some (''failed to create request: '' @ err),
                       Duration := since_start w (t_Index task)\<rparr>, [])
           | Inr req0 \<Rightarrow>
               (let req1 = Header_Set req0 ''Content-Type'' ''application/json'';
                    req = (if t_AuthHeader task \<noteq> []
                           then Header_Set req1 ''Authorization'' (t_AuthHeader task)
                           else req1)
                in case client_Do w (t_Index task) req of
                     DoError err cerr \<Rightarrow>
                       (let result = result\<lparr>Duration := since_start w (t_Index task)\<rparr> in
                        if cerr = DeadlineExceeded
                        then (result\<lparr>IsTimeout := True,
                                Error := Some (''request timeout after ''
                                  @ itoa (t_TimeoutSec task) @ '' seconds'')\<rparr>, [req])
                        else (result\<lparr>Error := Some (''request failed: '' @ err)\<rparr>, [req]))
                   | DoResponse resp \<Rightarrow>
                       (let result = result\<lparr>Duration := since_start w (t_Index task)\<rparr> in
                        case Body resp of
                          Inl err \<Rightarrow>
                            (result\<lparr>Error := Some (''failed to read response body: '' @ err)\<rparr>,
                             [req])
                        | Inr responseBytes \<Rightarrow>
                            if 200 \<le> StatusCode resp \<and> StatusCode resp < 300
                            then (result\<lparr>Success := True,
                                    Response := Some responseBytes\<rparr>, [req])
                            else (result\<lparr>Error := Some (''webhook returned status ''
                                    @ itoa (StatusCode resp) @ '': '' @ responseBytes)\<rparr>,
                                  [req])))))"

definition executeTask :: "'p world \<Rightarrow> 'p task \<Rightarrow> exec_result" where
  "executeTask w task = fst (executeTask_io w task)"

definition outbound :: "'p world \<Rightarrow> 'p task \<Rightarrow> http_request list" where
  "outbound w task = snd (executeTask_io w task)"

section \<open>The dispatcher (\<open>executeTasksParallel\<close>)\<close>

text \<open>
  The state of one call of \<open>executeTasksParallel\<close> once every goroutine is launched:
  \<^item> \<open>running\<close>: the tasks whose goroutine has not yet sent its result (the goroutine calls
    \<open>wg.Done()\<close> after the send, so the wait group's counter is \<open>length running\<close>);
  \<^item> \<open>chan\<close>: the buffer of \<open>resultChan\<close>, first in first out, of capacity \<open>cap\<close>;
  \<^item> \<open>closed\<close>: whether \<open>resultChan\<close> is closed;
  \<^item> \<open>results\<close> and \<open>idx\<close>: the slice the collecting loop fills and its counter \<open>i\<close>;
  \<^item> \<open>panicked\<close>: whether the collecting loop has stored out of range.
  A goroutine that finishes during the launching loop only fills the buffer earlier, which
  the launched state allows as its first steps.
\<close>

record 'p par_state =
  running :: "'p task list"
  chan :: "exec_result list"
  cap :: nat
  closed :: bool
  results :: "exec_result list"
  idx :: nat
  panicked :: bool

definition par_init :: "'p task list \<Rightarrow> 'p par_state" where
  "par_init tasks =
     \<lparr>running = tasks, chan = [], cap = length tasks, closed = False,
      results = replicate (length tasks) zero_exec_result, idx = 0, panicked = False\<rparr>"

text \<open>
  One step of the system, whichever unit the scheduler picks:
  \<^item> \<open>finish\<close>: a goroutine returns from \<open>executeTask\<close> and sends (a send blocks while the
    buffer is full);
  \<^item> \<open>close\<close>: the closing goroutine passes \<open>wg.Wait()\<close> and closes the channel;
  \<^item> \<open>recv\<close>, \<open>recv_panic\<close>: the collecting loop takes the oldest result and stores it at \<open>i\<close>.
\<close>

inductive par_step :: "'p world \<Rightarrow> 'p par_state \<Rightarrow> 'p par_state \<Rightarrow> bool" for w where
  finish: "\<not> panicked s \<Longrightarrow> task \<in> set (running s) \<Longrightarrow> length (chan s) < cap s \<Longrightarrow>
     par_step w s (s\<lparr>running := remove1 task (running s),
                     chan := chan s @ [executeTask w task]\<rparr>)"
| close: "\<not> panicked s \<Longrightarrow> running s = [] \<Longrightarrow> \<not> closed s \<Longrightarrow>
     par_step w s (s\<lparr>closed := True\<rparr>)"
| recv: "\<not> panicked s \<Longrightarrow> chan s = result # rest \<Longrightarrow>
     store (results s) (idx s) result = Some results' \<Longrightarrow>
     par_step w s (s\<lparr>chan := rest, results := results', idx := Suc (idx s)\<rparr>)"
| recv_panic: "\<not> panicked s \<Longrightarrow> chan s = result # rest \<Longrightarrow>
     store (results s) (idx s) result = None \<Longrightarrow>
     par_step w s (s\<lparr>panicked := True\<rparr>)"

text \<open>The collecting loop \<open>for result := range resultChan\<close> ends when the channel is closed
  and drained; \<open>executeTasksParallel\<close> then returns \<open>results\<close>.\<close>

definition par_final :: "'p par_state \<Rightarrow> bool" where
  "par_final s = (closed s \<and> chan s = [] \<and> \<not> panicked s)"

text \<open>The outcomes of \<open>executeTasksParallel\<close>: \<open>Some\<close> the slice it returns, \<open>None\<close> a panic.\<close>

inductive executeTasksParallel ::
  "'p world \<Rightarrow> 'p task list \<Rightarrow> exec_result list option \<Rightarrow> bool" for w tasks where
  returns: "(par_step w)\<^sup>*\<^sup>* (par_init tasks) s \<Longrightarrow> par_final s \<Longrightarrow>
     executeTasksParallel w tasks (Some (results s))"
| panics: "(par_step w)\<^sup>*\<^sup>* (par_init tasks) s \<Longrightarrow> panicked s \<Longrightarrow>
     executeTasksParallel w tasks None"

section \<open>The aggregator (\<open>ExecuteParallel\<close>)\<close>

text \<open>The tasks: \<open>tasks[i]\<close> is built from \<open>request.Payloads[i]\<close>.\<close>

definition new_task :: "'p request \<Rightarrow> nat \<Rightarrow> 'p \<Rightarrow> 'p task" where
  "new_task request i payload =
     \<lparr>t_Index = i, t_WebhookURL = WebhookURL request, t_AuthHeader = AuthHeader request,
      t_Payload = payload, t_TimeoutSec = Timeout request\<rparr>"

fun create_tasks :: "'p request \<Rightarrow> nat \<Rightarrow> 'p list \<Rightarrow> 'p task list" where
  "create_tasks request i [] = []"
| "create_tasks request i (payload # rest) =
     new_task request i payload # create_tasks request (Suc i) rest"

text \<open>\<open>for _, result := range results { sortedResults[result.Index] = result }\<close>\<close>

fun sort_by_index :: "exec_result list \<Rightarrow> exec_result list \<Rightarrow> exec_result list option" where
  "sort_by_index [] sortedResults = Some sortedResults"
| "sort_by_index (result # rest) sortedResults =
     (case store sortedResults (Index result) result of
        None \<Rightarrow> None
      | Some sortedResults' \<Rightarrow> sort_by_index rest sortedResults')"

text \<open>The body of the converting loop, for the result at position \<open>i\<close>.\<close>

definition convert_result :: "nat \<Rightarrow> exec_result \<Rightarrow> summary \<Rightarrow> webhook_result \<times> summary" where
  "convert_result i result summary =
     (let webhookResult = \<lparr>wr_Index = i, wr_Success = Success result, wr_Response = None,
                            wr_Error = [], wr_Duration = Duration result\<rparr>
      in if Success result
         then (webhookResult\<lparr>wr_Response := Response result\<rparr>,
               summary\<lparr>SuccessfulRequests := SuccessfulRequests summary + 1\<rparr>)
         else (let (webhookResult, summary) =
                     (if IsTimeout result
                      then (webhookResult\<lparr>wr_Error := ''timeout''\<rparr>,
                            summary\<lparr>TimeoutRequests := TimeoutRequests summary + 1\<rparr>)
                      else (case Error result of
                              Some err \<Rightarrow> (webhookResult\<lparr>wr_Error := err\<rparr>, summary)
                            | None \<Rightarrow> (webhookResult\<lparr>wr_Error := ''unknown error''\<rparr>, summary)))
               in (webhookResult, summary\<lparr>FailedRequests := FailedRequests summary + 1\<rparr>)))"

text \<open>\<open>for i, result := range sortedResults { ...; webhookResults[i] = webhookResult }\<close>:
  \<open>webhookResults\<close> has the length of \<open>sortedResults\<close>, and its entry \<open>i\<close> is the \<open>i\<close>-th one
  built.\<close>

fun convert_loop :: "nat \<Rightarrow> exec_result list \<Rightarrow> summary \<Rightarrow> webhook_result list \<times> summary" where
  "convert_loop i [] summary = ([], summary)"
| "convert_loop i (result # rest) summary =
     (let (webhookResult, summary') = convert_result i result summary;
          (webhookResults, summary'') = convert_loop (Suc i) rest summary'
      in (webhookResult # webhookResults, summary''))"

text \<open>What \<open>ExecuteParallel\<close> does with the slice \<open>executeTasksParallel\<close> returned.\<close>

definition aggregate :: "nat \<Rightarrow> int \<Rightarrow> exec_result list \<Rightarrow> response option" where
  "aggregate totalRequests elapsed rs =
     (case sort_by_index rs (replicate totalRequests zero_exec_result) of
        None \<Rightarrow> None
      | Some sortedResults \<Rightarrow>
          (let summary = \<lparr>TotalRequests = totalRequests, SuccessfulRequests = 0,
                          FailedRequests = 0, TimeoutRequests = 0, TotalDuration = elapsed\<rparr>;
               (webhookResults, summary') = convert_loop 0 sortedResults summary
           in Some \<lparr>Results = webhookResults, Summary = summary'\<rparr>))"

text \<open>The outcomes of \<open>ExecuteParallel\<close>: \<open>Some\<close> the response, \<open>None\<close> a panic.\<close>

inductive ExecuteParallel :: "'p world \<Rightarrow> 'p request \<Rightarrow> response option \<Rightarrow> bool"
  for w request where
  collected: "executeTasksParallel w (create_tasks request 0 (Payloads request)) (Some rs) \<Longrightarrow>
     ExecuteParallel w request
       (aggregate (length (Payloads request)) (batch_since_start w) rs)"
| crashed: "executeTasksParallel w (create_tasks request 0 (Payloads request)) None \<Longrightarrow>
     ExecuteParallel w request None"

section \<open>The boundary (\<open>ParallelHandler.Execute\<close>)\<close>

text \<open>
  The handler up to its call of \<open>ExecuteParallel\<close>.  Its inputs are the HTTP method and the
  outcome of decoding the body (\<open>Inl\<close> the decoding error); an absent \<open>timeout\<close> decodes to 0.
  The result is \<open>Inr\<close> the request handed to the core, or \<open>Inl\<close> the error reply sent
  instead.  \<open>validator.Struct\<close> checks the tags that \<open>models.go\<close> puts on the fields of
  \<open>ParallelExecuteRequest\<close>: \<open>required,url\<close> on the URL (not empty, and a URL),
  \<open>required,min=1\<close> on the payloads (at least one), \<open>min=1,max=3600\<close> on the timeout (its
  value between 1 and 3600); \<open>validator_Struct\<close> lists the fields that fail.  Whether a
  string is a URL and the text of a validation error are the library's, and parameters
  here.  The router admits only POST, which the handler checks again.
\<close>

record handler_env =
  is_url :: "string \<Rightarrow> bool"
  validation_text :: "string list \<Rightarrow> string"

record error_reply =
  er_status :: int
  er_Error :: string
  er_Message :: string

definition validator_Struct :: "handler_env \<Rightarrow> 'p request \<Rightarrow> string list" where
  "validator_Struct he request =
     (if WebhookURL request \<noteq> [] \<and> is_url he (WebhookURL request) then [] else [''WebhookURL''])
     @ (if 1 \<le> length (Payloads request) then [] else [''Payloads''])
     @ (if 1 \<le> Timeout request \<and> Timeout request \<le> 3600 then [] else [''Timeout''])"

definition Execute_request ::
  "handler_env \<Rightarrow> string \<Rightarrow> string + 'p request \<Rightarrow> error_reply + 'p request" where
  "Execute_request he verb decoded =
     (if verb \<noteq> ''POST''
      then Inl \<lparr>er_status = 405, er_Error = ''method not allowed'',
                er_Message = ''only POST method is supported''\<rparr>
      else case decoded of
        Inl err \<Rightarrow> Inl \<lparr>er_status = 400, er_Error = ''invalid request body'',
                        er_Message = ''failed to parse JSON payload''\<rparr>
      | Inr request0 \<Rightarrow>
          (let request = (if Timeout request0 = 0 then request0\<lparr>Timeout := 60\<rparr> else request0)
           in if validator_Struct he request \<noteq> []
              then Inl \<lparr>er_status = 400, er_Error = ''validation failed'',
                        er_Message = validation_text he (validator_Struct he request)\<rparr>
              else if length (Payloads request) = 0
              then Inl \<lparr>er_status = 400, er_Error = ''validation failed'',
                        er_Message = ''payloads array cannot be empty''\<rparr>
              else Inr request))"

section \<open>Invariant and measure of the dispatcher\<close>

text \<open>
  What holds in every state the dispatcher reaches: each task's result is in exactly one
  place (stored, in the buffer, or still to come), the slice and the buffer have the size
  they were made with, and the channel is closed only once every goroutine is done.  The
  measure bounds the number of steps still possible.
\<close>

definition par_inv :: "'p world \<Rightarrow> 'p task list \<Rightarrow> 'p par_state \<Rightarrow> bool" where
  "par_inv w tasks s =
     (mset (take (idx s) (results s)) + mset (chan s) + mset (map (executeTask w) (running s))
        = mset (map (executeTask w) tasks)
      \<and> idx s \<le> length tasks \<and> length (results s) = length tasks \<and> cap s = length tasks
      \<and> (closed s \<longrightarrow> running s = []) \<and> \<not> panicked s)"


section \<open>Example inputs\<close>

text \<open>
  A world in which the call of task 0 is answered 200, that of task 1 404, that of task 2
  runs into its deadline, that of task 3 is refused, that of task 4 is answered 200 with a
  body that breaks off; \<open>json.Marshal\<close> refuses the payload \<open>bad\<close>, and the empty URL is
  no URL.
\<close>

definition demo_net :: "nat \<Rightarrow> http_request \<Rightarrow> do_result" where
  "demo_net i req =
     (if i = 0 then DoResponse \<lparr>StatusCode = 200, Body = Inr ''ok''\<rparr>
      else if i = 1 then DoResponse \<lparr>StatusCode = 404, Body = Inr ''not found''\<rparr>
      else if i = 2 then DoError ''context deadline exceeded'' DeadlineExceeded
      else if i = 3 then DoError ''connection refused'' CtxNil
      else if i = 4 then DoResponse \<lparr>StatusCode = 200, Body = Inl ''unexpected EOF''\<rparr>
      else DoResponse \<lparr>StatusCode = 204, Body = Inr []\<rparr>)"

definition demo_marshal :: "string \<Rightarrow> string + string" where
  "demo_marshal p = (if p = ''bad'' then Inl ''unsupported value'' else Inr p)"

definition demo_url_error :: "string \<Rightarrow> string option" where
  "demo_url_error u = (if u = [] then Some ''empty url'' else None)"

definition demo_clock :: "nat \<Rightarrow> int" where
  "demo_clock i = 10 + int i"

definition demo_body_ctx :: "nat \<Rightarrow> ctx_err" where
  "demo_body_ctx i = CtxNil"

definition demo_world :: "string world" where
  "demo_world =
     \<lparr>json_Marshal = demo_marshal, url_error = demo_url_error, client_Do = demo_net,
      since_start = demo_clock, batch_since_start = 20, body_ctx_err = demo_body_ctx\<rparr>"






text \<open>Requests: three payloads, and none.\<close>

definition demo_request :: "string request" where
  "demo_request =
     \<lparr>WebhookURL = ''http://h/x'', AuthHeader = ''Bearer k'', Payloads = [''a'', ''b'', ''c''],
      Timeout = 30\<rparr>"

definition empty_request :: "string request" where
  "empty_request = \<lparr>WebhookURL = ''http://h/x'', AuthHeader = [], Payloads = [], Timeout = 30\<rparr>"

definition demo_task :: "nat \<Rightarrow> string \<Rightarrow> string \<Rightarrow> string \<Rightarrow> string task" where
  "demo_task i url auth payload =
     \<lparr>t_Index = i, t_WebhookURL = url, t_AuthHeader = auth, t_Payload = payload,
      t_TimeoutSec = 30\<rparr>"

text \<open>A boundary that takes for a URL what starts with \<open>http://\<close>.\<close>

definition demo_is_url :: "string \<Rightarrow> bool" where
  "demo_is_url u = (take 7 u = ''http://'')"

definition demo_validation_text :: "string list \<Rightarrow> string" where
  "demo_validation_text failed = ''failed on: '' @ concat failed"

definition demo_handler_env :: handler_env where
  "demo_handler_env = \<lparr>is_url = demo_is_url, validation_text = demo_validation_text\<rparr>"

section \<open>The executor, case by case\<close>

lemmas executeTask_unfold = executeTask_def outbound_def executeTask_io_def
  NewRequestWithContext_def Header_Set_def zero_exec_result_def Let_def

lemma io_marshal_fails:
  "json_Marshal w (t_Payload task) = Inl err \<Longrightarrow>
   executeTask_io w task =
     (\<lparr>Index = t_Index task, Success = False, Response = None,
       Error = Some (''failed to marshal payload: '' @ err),
       Duration = since_start w (t_Index task), IsTimeout = False\<rparr>, [])"
  by (simp add: executeTask_unfold)

lemma io_request_fails:
  "json_Marshal w (t_Payload task) = Inr b \<Longrightarrow> url_error w (t_WebhookURL task) = Some err \<Longrightarrow>
   executeTask_io w task =
     (\<lparr>Index = t_Index task, Success = False, Response = None,
       Error = Some (''failed to create request: '' @ err),
       Duration = since_start w (t_Index task), IsTimeout = False\<rparr>, [])"
  by (simp add: executeTask_unfold)

lemma io_sent:
  "json_Marshal w (t_Payload task) = Inr b \<Longrightarrow> url_error w (t_WebhookURL task) = None \<Longrightarrow>
   snd (executeTask_io w task) =
     [\<lparr>req_timeout_sec = t_TimeoutSec task, req_method = ''POST'',
       req_url = t_WebhookURL task,
       req_header = (if t_AuthHeader task \<noteq> []
                     then [''Content-Type'' \<mapsto> ''application/json'',
                           ''Authorization'' \<mapsto> t_AuthHeader task]
                     else [''Content-Type'' \<mapsto> ''application/json'']),
       req_body = b\<rparr>]"
  by (simp add: executeTask_unfold split: do_result.split sum.split)

lemma outbound_cases:
  "outbound w task = [req] \<Longrightarrow>
   \<exists>b. json_Marshal w (t_Payload task) = Inr b \<and> url_error w (t_WebhookURL task) = None"
  apply (cases "json_Marshal w (t_Payload task)")
   apply (simp add: outbound_def io_marshal_fails)
  apply (cases "url_error w (t_WebhookURL task)")
   apply simp
  apply (simp add: outbound_def io_request_fails)
  done

lemma outbound_request:
  assumes "outbound w task = [req]"
  obtains b where "json_Marshal w (t_Payload task) = Inr b"
    and "url_error w (t_WebhookURL task) = None"
    and "req = \<lparr>req_timeout_sec = t_TimeoutSec task, req_method = ''POST'',
       req_url = t_WebhookURL task,
       req_header = (if t_AuthHeader task \<noteq> []
                     then [''Content-Type'' \<mapsto> ''application/json'',
                           ''Authorization'' \<mapsto> t_AuthHeader task]
                     else [''Content-Type'' \<mapsto> ''application/json'']),
       req_body = b\<rparr>"
proof -
  from outbound_cases [OF assms] obtain b
    where m: "json_Marshal w (t_Payload task) = Inr b"
      and u: "url_error w (t_WebhookURL task) = None" by blast
  from io_sent [OF m u] assms have "req = \<lparr>req_timeout_sec = t_TimeoutSec task, req_method = ''POST'',
       req_url = t_WebhookURL task,
       req_header = (if t_AuthHeader task \<noteq> []
                     then [''Content-Type'' \<mapsto> ''application/json'',
                           ''Authorization'' \<mapsto> t_AuthHeader task]
                     else [''Content-Type'' \<mapsto> ''application/json'']),
       req_body = b\<rparr>"
    by (simp add: outbound_def)
  with m u that show thesis by blast
qed

lemma exec_do_error:
  assumes "outbound w task = [req]"
      and "client_Do w (t_Index task) req = DoError err cerr"
  shows "executeTask w task =
     \<lparr>Index = t_Index task, Success = False, Response = None,
       Error = Some (if cerr = DeadlineExceeded
                     then ''request timeout after '' @ itoa (t_TimeoutSec task) @ '' seconds''
                     else ''request failed: '' @ err),
       Duration = since_start w (t_Index task), IsTimeout = (cerr = DeadlineExceeded)\<rparr>"
proof -
  from assms(1) obtain b where m: "json_Marshal w (t_Payload task) = Inr b"
    and u: "url_error w (t_WebhookURL task) = None"
    and r: "req = \<lparr>req_timeout_sec = t_TimeoutSec task, req_method = ''POST'',
       req_url = t_WebhookURL task,
       req_header = (if t_AuthHeader task \<noteq> []
                     then [''Content-Type'' \<mapsto> ''application/json'',
                           ''Authorization'' \<mapsto> t_AuthHeader task]
                     else [''Content-Type'' \<mapsto> ''application/json'']),
       req_body = b\<rparr>"
    by (rule outbound_request)
  from assms(2) [unfolded r] m u show ?thesis
    by (cases "t_AuthHeader task = []") (simp_all add: executeTask_unfold)
qed

lemma exec_do_response:
  assumes "outbound w task = [req]"
      and "client_Do w (t_Index task) req = DoResponse resp"
  shows "executeTask w task =
     (case Body resp of
        Inl err \<Rightarrow> \<lparr>Index = t_Index task, Success = False, Response = None,
          Error = Some (''failed to read response body: '' @ err),
          Duration = since_start w (t_Index task), IsTimeout = False\<rparr>
      | Inr body \<Rightarrow>
          if 200 \<le> StatusCode resp \<and> StatusCode resp < 300
          then \<lparr>Index = t_Index task, Success = True, Response = Some body,
                 Error = None, Duration = since_start w (t_Index task), IsTimeout = False\<rparr>
          else \<lparr>Index = t_Index task, Success = False, Response = None,
                 Error = Some (''webhook returned status '' @ itoa (StatusCode resp)
                          @ '': '' @ body),
                 Duration = since_start w (t_Index task), IsTimeout = False\<rparr>)"
proof -
  from assms(1) obtain b where m: "json_Marshal w (t_Payload task) = Inr b"
    and u: "url_error w (t_WebhookURL task) = None"
    and r: "req = \<lparr>req_timeout_sec = t_TimeoutSec task, req_method = ''POST'',
       req_url = t_WebhookURL task,
       req_header = (if t_AuthHeader task \<noteq> []
                     then [''Content-Type'' \<mapsto> ''application/json'',
                           ''Authorization'' \<mapsto> t_AuthHeader task]
                     else [''Content-Type'' \<mapsto> ''application/json'']),
       req_body = b\<rparr>"
    by (rule outbound_request)
  from assms(2) [unfolded r] m u show ?thesis
    by (cases "t_AuthHeader task = []") (simp_all add: executeTask_unfold split: sum.split)
qed

section \<open>The dispatcher: invariant, progress, termination\<close>

lemma par_inv_init: "par_inv w tasks (par_init tasks)"
  by (simp add: par_inv_def par_init_def)

lemma par_inv_count:
  assumes "par_inv w tasks s"
  shows "idx s + length (chan s) + length (running s) = length tasks"
proof -
  from assms have e: "mset (take (idx s) (results s)) + mset (chan s)
      + mset (map (executeTask w) (running s)) = mset (map (executeTask w) tasks)"
    and i: "idx s \<le> length tasks" and l: "length (results s) = length tasks"
    by (simp_all add: par_inv_def)
  from e have "size (mset (take (idx s) (results s)) + mset (chan s)
      + mset (map (executeTask w) (running s))) = size (mset (map (executeTask w) tasks))"
    by simp
  with i l show ?thesis by simp
qed

lemma mset_map_remove1:
  "x \<in> set xs \<Longrightarrow> mset (map f xs) = add_mset (f x) (mset (map f (remove1 x xs)))"
  by (induction xs) auto

lemma par_inv_step:
  assumes "par_step w s s'" and "par_inv w tasks s"
  shows "par_inv w tasks s'"
  using assms
proof (cases rule: par_step.cases)
  case (finish task)
  have "mset (map (executeTask w) (running s))
      = add_mset (executeTask w task) (mset (map (executeTask w) (remove1 task (running s))))"
    using finish(3) by (rule mset_map_remove1)
  moreover from finish have "running s \<noteq> []" by auto
  ultimately show ?thesis using finish assms(2)
    by (simp add: par_inv_def del: mset_map)
next
  case close
  with assms(2) show ?thesis by (simp add: par_inv_def)
next
  case (recv result rest results')
  from recv have lt: "idx s < length (results s)" and r': "results' = (results s)[idx s := result]"
    by (auto simp: store_def split: if_splits)
  have "take (Suc (idx s)) results' = take (idx s) (results s) @ [result]"
    using lt r' by (simp add: take_Suc_conv_app_nth)
  with recv assms(2) lt r' show ?thesis
    by (simp add: par_inv_def ac_simps)
next
  case (recv_panic result rest)
  from recv_panic have "length (results s) \<le> idx s"
    by (auto simp: store_def split: if_splits)
  moreover from assms(2) have "length (results s) = length tasks" by (simp add: par_inv_def)
  moreover from par_inv_count [OF assms(2)] recv_panic have "idx s < length tasks" by simp
  ultimately show ?thesis by simp
qed

lemma par_inv_steps:
  "(par_step w)\<^sup>*\<^sup>* s s' \<Longrightarrow> par_inv w tasks s \<Longrightarrow> par_inv w tasks s'"
  by (induction rule: rtranclp_induct) (auto intro: par_inv_step)

lemma par_inv_reachable:
  "(par_step w)\<^sup>*\<^sup>* (par_init tasks) s \<Longrightarrow> par_inv w tasks s"
  by (rule par_inv_steps [OF _ par_inv_init])




lemma par_final_results:
  assumes "par_inv w tasks s" and "par_final s"
  shows "mset (results s) = mset (map (executeTask w) tasks)"
proof -
  from assms have r: "running s = []" and c: "chan s = []"
    by (simp_all add: par_inv_def par_final_def)
  from par_inv_count [OF assms(1)] r c have "idx s = length tasks" by simp
  moreover from assms(1) have "length (results s) = length tasks" by (simp add: par_inv_def)
  ultimately show ?thesis using assms(1) r c by (simp add: par_inv_def)
qed

lemma executeTasksParallel_outcome:
  assumes "executeTasksParallel w tasks out"
  shows "\<exists>rs. out = Some rs \<and> mset rs = mset (map (executeTask w) tasks)"
  using assms
proof (cases rule: executeTasksParallel.cases)
  case (returns s)
  then show ?thesis using par_final_results [OF par_inv_reachable] by blast
next
  case (panics s)
  then show ?thesis using par_inv_reachable [of w tasks s] by (simp add: par_inv_def)
qed

section \<open>Restoring the order\<close>

lemma executeTask_Index: "Index (executeTask w task) = t_Index task"
proof (cases "json_Marshal w (t_Payload task)")
  case (Inl err)
  then show ?thesis by (simp add: executeTask_def io_marshal_fails)
next
  case (Inr b)
  show ?thesis
  proof (cases "url_error w (t_WebhookURL task)")
    case (Some err)
    with Inr show ?thesis by (simp add: executeTask_def io_request_fails)
  next
    case None
    from io_sent [OF Inr None] obtain req where o: "outbound w task = [req]"
      by (simp add: outbound_def)
    show ?thesis
    proof (cases "client_Do w (t_Index task) req")
      case (DoError err cerr)
      show ?thesis by (simp add: exec_do_error [OF o DoError])
    next
      case (DoResponse resp)
      show ?thesis by (simp add: exec_do_response [OF o DoResponse] split: sum.split)
    qed
  qed
qed

lemma length_create_tasks: "length (create_tasks request k ps) = length ps"
  by (induction ps arbitrary: k) simp_all

lemma nth_create_tasks:
  "i < length ps \<Longrightarrow> create_tasks request k ps ! i = new_task request (k + i) (ps ! i)"
proof (induction ps arbitrary: k i)
  case Nil
  then show ?case by simp
next
  case (Cons p ps)
  then show ?case by (cases i) simp_all
qed

lemma map_Index_create_tasks:
  "map t_Index (create_tasks request k ps) = [k..<k + length ps]"
proof (induction ps arbitrary: k)
  case Nil
  then show ?case by simp
next
  case (Cons p ps)
  then show ?case by (simp add: upt_rec new_task_def)
qed

lemma sort_by_index_places:
  assumes "distinct (map Index rs)" and "\<forall>r\<in>set rs. Index r < length acc"
  shows "\<exists>out. sort_by_index rs acc = Some out \<and> length out = length acc
            \<and> (\<forall>r\<in>set rs. out ! Index r = r)
            \<and> (\<forall>i. i \<notin> Index ` set rs \<longrightarrow> out ! i = acc ! i)"
  using assms
proof (induction rs arbitrary: acc)
  case Nil
  then show ?case by simp
next
  case (Cons r rs)
  let ?acc = "acc[Index r := r]"
  from Cons.prems have st: "store acc (Index r) r = Some ?acc" by (simp add: store_def)
  from Cons.prems have "distinct (map Index rs)" and "\<forall>r\<in>set rs. Index r < length ?acc"
    by simp_all
  from Cons.IH [OF this] obtain out where o: "sort_by_index rs ?acc = Some out"
    and l: "length out = length ?acc"
    and a: "\<forall>r\<in>set rs. out ! Index r = r"
    and b: "\<forall>i. i \<notin> Index ` set rs \<longrightarrow> out ! i = ?acc ! i" by blast
  from Cons.prems have "Index r \<notin> Index ` set rs" and "Index r < length acc" by auto
  with b have "out ! Index r = r" by simp
  moreover from b have "\<forall>i. i \<notin> Index ` set (r # rs) \<longrightarrow> out ! i = acc ! i" by simp
  ultimately show ?case using st o l a by simp
qed

lemma sort_by_index_perm:
  assumes m: "mset rs = mset es" and ix: "map Index es = [0..<length es]"
  shows "sort_by_index rs (replicate (length es) zero_exec_result) = Some es"
proof -
  let ?acc = "replicate (length es) zero_exec_result"
  from m have "mset (map Index rs) = mset (map Index es)" by simp
  with ix have mi: "mset (map Index rs) = mset [0..<length es]" by simp
  then have d: "distinct (map Index rs)"
    using mset_eq_imp_distinct_iff [of "map Index rs" "[0..<length es]"] by simp
  from mi have "set (map Index rs) = set [0..<length es]" by (rule mset_eq_setD)
  then have b: "\<forall>r\<in>set rs. Index r < length ?acc" by auto
  from sort_by_index_places [OF d b] obtain out
    where o: "sort_by_index rs ?acc = Some out" and l: "length out = length es"
      and a: "\<forall>r\<in>set rs. out ! Index r = r" by auto
  have "out ! i = es ! i" if "i < length es" for i
  proof -
    from that have "es ! i \<in> set es" by simp
    with m have "es ! i \<in> set rs" using mset_eq_setD by blast
    with a have "out ! Index (es ! i) = es ! i" by blast
    moreover from that ix have "Index (es ! i) = i"
      by (metis nth_map nth_upt add_0)
    ultimately show ?thesis by simp
  qed
  with l have "out = es" by (simp add: list_eq_iff_nth_eq)
  with o show ?thesis by simp
qed

section \<open>The converting loop\<close>

lemma fst_convert_result:
  "fst (convert_result i r sm) =
     \<lparr>wr_Index = i, wr_Success = Success r,
      wr_Response = (if Success r then Response r else None),
      wr_Error = (if Success r then []
                  else if IsTimeout r then ''timeout''
                  else case Error r of Some err \<Rightarrow> err | None \<Rightarrow> ''unknown error''),
      wr_Duration = Duration r\<rparr>"
  by (simp add: convert_result_def Let_def split: option.split)

lemma snd_convert_result:
  "snd (convert_result i r sm) =
     sm\<lparr>SuccessfulRequests := SuccessfulRequests sm + (if Success r then 1 else 0),
        FailedRequests := FailedRequests sm + (if Success r then 0 else 1),
        TimeoutRequests := TimeoutRequests sm + (if \<not> Success r \<and> IsTimeout r then 1 else 0)\<rparr>"
  by (simp add: convert_result_def Let_def split: option.split)

lemma convert_loop_Cons:
  "convert_loop i (r # rs) sm =
     (fst (convert_result i r sm) # fst (convert_loop (Suc i) rs (snd (convert_result i r sm))),
      snd (convert_loop (Suc i) rs (snd (convert_result i r sm))))"
  by (simp add: Let_def split: prod.split)

lemma length_convert_loop: "length (fst (convert_loop k rs sm)) = length rs"
  by (induction rs arbitrary: k sm) (simp_all add: convert_loop_Cons del: convert_loop.simps(2))

lemma nth_convert_loop:
  "i < length rs \<Longrightarrow>
   fst (convert_loop k rs sm) ! i =
     \<lparr>wr_Index = k + i, wr_Success = Success (rs ! i),
      wr_Response = (if Success (rs ! i) then Response (rs ! i) else None),
      wr_Error = (if Success (rs ! i) then []
                  else if IsTimeout (rs ! i) then ''timeout''
                  else case Error (rs ! i) of Some err \<Rightarrow> err | None \<Rightarrow> ''unknown error''),
      wr_Duration = Duration (rs ! i)\<rparr>"
proof (induction rs arbitrary: k sm i)
  case Nil
  then show ?case by simp
next
  case (Cons r rs)
  show ?case
  proof (cases i)
    case 0
    then show ?thesis
      by (simp add: convert_loop_Cons fst_convert_result del: convert_loop.simps(2))
  next
    case (Suc j)
    with Cons.prems have "j < length rs" by simp
    from Cons.IH [OF this] Suc show ?thesis
      by (simp add: convert_loop_Cons del: convert_loop.simps(2))
  qed
qed

lemma summary_convert_loop:
  "TotalRequests (snd (convert_loop k rs sm)) = TotalRequests sm
   \<and> TotalDuration (snd (convert_loop k rs sm)) = TotalDuration sm
   \<and> SuccessfulRequests (snd (convert_loop k rs sm))
       = SuccessfulRequests sm + length (filter Success rs)
   \<and> FailedRequests (snd (convert_loop k rs sm))
       = FailedRequests sm + length (filter (\<lambda>r. \<not> Success r) rs)
   \<and> TimeoutRequests (snd (convert_loop k rs sm))
       = TimeoutRequests sm + length (filter (\<lambda>r. \<not> Success r \<and> IsTimeout r) rs)"
proof (induction rs arbitrary: k sm)
  case Nil
  then show ?case by simp
next
  case (Cons r rs)
  show ?case
    by (simp add: convert_loop_Cons Cons.IH snd_convert_result del: convert_loop.simps(2))
qed

lemma aggregate_ordered:
  "aggregate (length es) elapsed rs =
     (case sort_by_index rs (replicate (length es) zero_exec_result) of
        None \<Rightarrow> None
      | Some srt \<Rightarrow>
          Some \<lparr>Results = fst (convert_loop 0 srt
                   \<lparr>TotalRequests = length es, SuccessfulRequests = 0, FailedRequests = 0,
                    TimeoutRequests = 0, TotalDuration = elapsed\<rparr>),
                 Summary = snd (convert_loop 0 srt
                   \<lparr>TotalRequests = length es, SuccessfulRequests = 0, FailedRequests = 0,
                    TimeoutRequests = 0, TotalDuration = elapsed\<rparr>)\<rparr>)"
  by (simp add: aggregate_def Let_def split: option.split prod.split)

section \<open>Runs of the dispatcher and the response\<close>

lemma finish_all:
  assumes "mset ord = mset (running s)" and "\<not> panicked s"
    and "length (chan s) + length ord \<le> cap s"
  shows "(par_step w)\<^sup>*\<^sup>* s (s\<lparr>running := [], chan := chan s @ map (executeTask w) ord\<rparr>)"
  using assms
proof (induction ord arbitrary: s)
  case Nil
  then have "s\<lparr>running := [], chan := chan s @ map (executeTask w) []\<rparr> = s" by simp
  then show ?case by simp
next
  case (Cons t ord)
  let ?s = "s\<lparr>running := remove1 t (running s), chan := chan s @ [executeTask w t]\<rparr>"
  from Cons.prems(1) have "t \<in># mset (running s)" by (metis list.set_intros(1) set_mset_mset)
  then have mem: "t \<in> set (running s)" by simp
  with Cons.prems have st: "par_step w s ?s" by (intro par_step.finish) simp_all
  from Cons.prems(1) have "mset ord = mset (running ?s)"
    by (simp add: mset_remove1) (metis add_mset_remove_trivial)
  moreover from Cons.prems have "\<not> panicked ?s" "length (chan ?s) + length ord \<le> cap ?s"
    by simp_all
  ultimately have "(par_step w)\<^sup>*\<^sup>* ?s
      (?s\<lparr>running := [], chan := chan ?s @ map (executeTask w) ord\<rparr>)"
    by (rule Cons.IH)
  with st show ?case by (simp add: converse_rtranclp_into_rtranclp)
qed

lemma recv_all:
  assumes "chan s = rs" and "\<not> panicked s" and "idx s + length rs \<le> length (results s)"
  shows "(par_step w)\<^sup>*\<^sup>* s
     (s\<lparr>chan := [],
        results := take (idx s) (results s) @ rs @ drop (idx s + length rs) (results s),
        idx := idx s + length rs\<rparr>)"
  using assms
proof (induction rs arbitrary: s)
  case Nil
  then have "s\<lparr>chan := [],
        results := take (idx s) (results s) @ [] @ drop (idx s + length []) (results s),
        idx := idx s + length []\<rparr> = s" by simp
  then show ?case by simp
next
  case (Cons r rs)
  let ?res = "(results s)[idx s := r]"
  let ?s = "s\<lparr>chan := rs, results := ?res, idx := Suc (idx s)\<rparr>"
  from Cons.prems have lt: "idx s < length (results s)" by simp
  then have "store (results s) (idx s) r = Some ?res" by (simp add: store_def)
  with Cons.prems have st: "par_step w s ?s" by (intro par_step.recv) simp_all
  from Cons.prems have "chan ?s = rs" "\<not> panicked ?s"
    "idx ?s + length rs \<le> length (results ?s)" by simp_all
  then have "(par_step w)\<^sup>*\<^sup>* ?s
     (?s\<lparr>chan := [],
        results := take (idx ?s) (results ?s) @ rs @ drop (idx ?s + length rs) (results ?s),
        idx := idx ?s + length rs\<rparr>)"
    by (rule Cons.IH)
  moreover have "take (Suc (idx s)) ?res = take (idx s) (results s) @ [r]"
    using lt by (simp add: take_Suc_conv_app_nth)
  ultimately show ?case using st lt
    by (simp add: converse_rtranclp_into_rtranclp)
qed

lemma executeTasksParallel_any_order:
  assumes "mset ord = mset tasks"
  shows "executeTasksParallel w tasks (Some (map (executeTask w) ord))"
proof -
  let ?n = "length tasks"
  let ?rs = "map (executeTask w) ord"
  from assms have len: "length ord = ?n" by (metis size_mset)
  let ?s1 = "(par_init tasks)\<lparr>running := [], chan := ?rs\<rparr>"
  let ?s2 = "?s1\<lparr>closed := True\<rparr>"
  let ?s3 = "?s2\<lparr>chan := [], results := ?rs, idx := ?n\<rparr>"
  have "(par_step w)\<^sup>*\<^sup>* (par_init tasks)
      ((par_init tasks)\<lparr>running := [],
         chan := chan (par_init tasks) @ map (executeTask w) ord\<rparr>)"
    using assms len by (intro finish_all) (simp_all add: par_init_def)
  then have a: "(par_step w)\<^sup>*\<^sup>* (par_init tasks) ?s1" by (simp add: par_init_def)
  have b: "par_step w ?s1 ?s2" by (intro par_step.close) (simp_all add: par_init_def)
  have "(par_step w)\<^sup>*\<^sup>* ?s2
     (?s2\<lparr>chan := [],
        results := take (idx ?s2) (results ?s2) @ ?rs @ drop (idx ?s2 + length ?rs) (results ?s2),
        idx := idx ?s2 + length ?rs\<rparr>)"
    using len by (intro recv_all) (simp_all add: par_init_def)
  then have c: "(par_step w)\<^sup>*\<^sup>* ?s2 ?s3" using len by (simp add: par_init_def)
  from a b c have "(par_step w)\<^sup>*\<^sup>* (par_init tasks) ?s3" by auto
  moreover have "par_final ?s3" by (simp add: par_final_def par_init_def)
  ultimately have "executeTasksParallel w tasks (Some (results ?s3))"
    by (rule executeTasksParallel.returns)
  then show ?thesis by simp
qed

lemma es_props:
  fixes request :: "'p request"
  defines "tasks \<equiv> create_tasks request 0 (Payloads request)"
  shows "length (map (executeTask w) tasks) = length (Payloads request)"
    and "map Index (map (executeTask w) tasks) = [0..<length (Payloads request)]"
proof -
  show "length (map (executeTask w) tasks) = length (Payloads request)"
    by (simp add: tasks_def length_create_tasks)
  have "map Index (map (executeTask w) tasks) = map t_Index tasks"
    by (simp add: executeTask_Index)
  also have "\<dots> = [0..<length (Payloads request)]"
    unfolding tasks_def by (simp only: map_Index_create_tasks add_0)
  finally show "map Index (map (executeTask w) tasks) = [0..<length (Payloads request)]" .
qed

lemma sorted_any_order:
  assumes "mset rs = mset (map (executeTask w) (create_tasks request 0 (Payloads request)))"
  shows "sort_by_index rs (replicate (length (Payloads request)) zero_exec_result)
     = Some (map (executeTask w) (create_tasks request 0 (Payloads request)))"
proof -
  let ?es = "map (executeTask w) (create_tasks request 0 (Payloads request))"
  have "map Index ?es = [0..<length ?es]"
    by (simp only: es_props)
  from sort_by_index_perm [OF assms this] show ?thesis
    by (simp only: es_props)
qed

lemma aggregate_any_order:
  assumes "mset rs = mset (map (executeTask w) (create_tasks request 0 (Payloads request)))"
  shows "aggregate (length (Payloads request)) elapsed rs
     = aggregate (length (Payloads request)) elapsed
         (map (executeTask w) (create_tasks request 0 (Payloads request)))"
  unfolding aggregate_def
  by (simp only: sorted_any_order [OF assms] sorted_any_order [OF refl])

lemma ExecuteParallel_outcome:
  assumes "ExecuteParallel w request out"
  shows "out = aggregate (length (Payloads request)) (batch_since_start w)
           (map (executeTask w) (create_tasks request 0 (Payloads request)))"
  using assms
proof (cases rule: ExecuteParallel.cases)
  case (collected rs)
  from executeTasksParallel_outcome [OF collected(2)]
  have "mset rs = mset (map (executeTask w) (create_tasks request 0 (Payloads request)))"
    by simp
  from aggregate_any_order [OF this] collected(1) show ?thesis by simp
next
  case crashed
  from executeTasksParallel_outcome [OF crashed(2)] show ?thesis by simp
qed

lemma ExecuteParallel_returns:
  "ExecuteParallel w request
     (aggregate (length (Payloads request)) (batch_since_start w)
        (map (executeTask w) (create_tasks request 0 (Payloads request))))"
  by (intro ExecuteParallel.collected executeTasksParallel_any_order) simp

lemma aggregate_ordered_tasks:
  fixes request :: "'p request" and w :: "'p world"
  defines "es \<equiv> map (executeTask w) (create_tasks request 0 (Payloads request))"
    and "sm0 \<equiv> \<lparr>TotalRequests = length (Payloads request), SuccessfulRequests = 0,
                  FailedRequests = 0, TimeoutRequests = 0,
                  TotalDuration = batch_since_start w\<rparr>"
  shows "aggregate (length (Payloads request)) (batch_since_start w) es
     = Some \<lparr>Results = fst (convert_loop 0 es sm0), Summary = snd (convert_loop 0 es sm0)\<rparr>"
proof -
  have "sort_by_index es (replicate (length (Payloads request)) zero_exec_result) = Some es"
    unfolding es_def by (rule sorted_any_order [OF refl])
  then show ?thesis
    unfolding aggregate_def sm0_def
    by (simp add: Let_def split: prod.split)
qed

lemmas demo_defs = demo_world_def demo_task_def demo_net_def demo_marshal_def
  demo_url_error_def demo_clock_def

lemma demo_outbound:
  "url \<noteq> [] \<Longrightarrow> p \<noteq> ''bad'' \<Longrightarrow>
   outbound demo_world (demo_task i url a p) = [hd (outbound demo_world (demo_task i url a p))]"
  unfolding outbound_def
  by (subst (1 2) io_sent [where b = p]) (simp_all add: demo_defs)

section \<open>The executor and the response, in general\<close>


lemma executeTask_kinds:
  "Index (executeTask w task) = t_Index task
   \<and> Duration (executeTask w task) = since_start w (t_Index task)
   \<and> (if Success (executeTask w task)
       then Response (executeTask w task) \<noteq> None \<and> Error (executeTask w task) = None
          \<and> \<not> IsTimeout (executeTask w task)
       else Response (executeTask w task) = None
          \<and> (\<exists>e. Error (executeTask w task) = Some e \<and> e \<noteq> []))"
proof (cases "json_Marshal w (t_Payload task)")
  case (Inl err)
  then show ?thesis by (simp add: executeTask_def io_marshal_fails)
next
  case (Inr b)
  show ?thesis
  proof (cases "url_error w (t_WebhookURL task)")
    case (Some err)
    with Inr show ?thesis by (simp add: executeTask_def io_request_fails)
  next
    case None
    from io_sent [OF Inr None] obtain req where o: "outbound w task = [req]"
      by (simp add: outbound_def)
    show ?thesis
    proof (cases "client_Do w (t_Index task) req")
      case (DoError err cerr)
      show ?thesis by (simp add: exec_do_error [OF o DoError])
    next
      case (DoResponse resp)
      show ?thesis by (simp add: exec_do_response [OF o DoResponse] split: sum.split)
    qed
  qed
qed

lemma ExecuteParallel_response:
  assumes "ExecuteParallel w request out"
  shows "out = Some
     \<lparr>Results = fst (convert_loop 0
          (map (executeTask w) (create_tasks request 0 (Payloads request)))
          \<lparr>TotalRequests = length (Payloads request), SuccessfulRequests = 0,
           FailedRequests = 0, TimeoutRequests = 0, TotalDuration = batch_since_start w\<rparr>),
      Summary = snd (convert_loop 0
          (map (executeTask w) (create_tasks request 0 (Payloads request)))
          \<lparr>TotalRequests = length (Payloads request), SuccessfulRequests = 0,
           FailedRequests = 0, TimeoutRequests = 0, TotalDuration = batch_since_start w\<rparr>)\<rparr>"
  using ExecuteParallel_outcome [OF assms] by (simp only: aggregate_ordered_tasks)

lemma ExecuteParallel_entry:
  assumes "ExecuteParallel w request (Some resp)" and "i < length (Payloads request)"
  shows "Results resp ! i =
     \<lparr>wr_Index = i,
      wr_Success = Success (executeTask w (new_task request i (Payloads request ! i))),
      wr_Response =
        (if Success (executeTask w (new_task request i (Payloads request ! i)))
         then Response (executeTask w (new_task request i (Payloads request ! i))) else None),
      wr_Error =
        (if Success (executeTask w (new_task request i (Payloads request ! i))) then []
         else if IsTimeout (executeTask w (new_task request i (Payloads request ! i)))
         then ''timeout''
         else case Error (executeTask w (new_task request i (Payloads request ! i))) of
                Some err \<Rightarrow> err | None \<Rightarrow> ''unknown error''),
      wr_Duration = Duration (executeTask w (new_task request i (Payloads request ! i)))\<rparr>"
proof -
  let ?tasks = "create_tasks request 0 (Payloads request)"
  from assms(2) have l: "i < length (map (executeTask w) ?tasks)"
    by (simp add: length_create_tasks)
  from assms(2) have n: "map (executeTask w) ?tasks ! i
      = executeTask w (new_task request i (Payloads request ! i))"
    by (simp add: length_create_tasks nth_create_tasks)
  from ExecuteParallel_response [OF assms(1)] have "Results resp ! i
      = fst (convert_loop 0 (map (executeTask w) ?tasks)
          \<lparr>TotalRequests = length (Payloads request), SuccessfulRequests = 0,
           FailedRequests = 0, TimeoutRequests = 0, TotalDuration = batch_since_start w\<rparr>) ! i"
    by simp
  also note nth_convert_loop [OF l]
  finally show ?thesis by (simp only: n add_0)
qed

lemma ExecuteParallel_length:
  assumes "ExecuteParallel w request (Some resp)"
  shows "length (Results resp) = length (Payloads request)"
  using ExecuteParallel_response [OF assms]
  by (simp add: length_convert_loop length_create_tasks)

lemma ExecuteParallel_summary:
  assumes "ExecuteParallel w request (Some resp)"
  shows "TotalRequests (Summary resp) = length (Payloads request)
       \<and> TotalDuration (Summary resp) = batch_since_start w
       \<and> SuccessfulRequests (Summary resp)
           = length (filter Success
               (map (executeTask w) (create_tasks request 0 (Payloads request))))
       \<and> FailedRequests (Summary resp)
           = length (filter (\<lambda>r. \<not> Success r)
               (map (executeTask w) (create_tasks request 0 (Payloads request))))
       \<and> TimeoutRequests (Summary resp)
           = length (filter (\<lambda>r. \<not> Success r \<and> IsTimeout r)
               (map (executeTask w) (create_tasks request 0 (Payloads request))))"
proof -
  from ExecuteParallel_response [OF assms] have "Summary resp
      = snd (convert_loop 0 (map (executeTask w) (create_tasks request 0 (Payloads request)))
          \<lparr>TotalRequests = length (Payloads request), SuccessfulRequests = 0,
           FailedRequests = 0, TimeoutRequests = 0, TotalDuration = batch_since_start w\<rparr>)"
    by simp
  then show ?thesis by (simp only: summary_convert_loop) simp
qed

lemma ExecuteParallel_Some:
  assumes "ExecuteParallel w request out"
  obtains resp where "out = Some resp"
  using ExecuteParallel_response [OF assms] by blast

lemma ExecuteParallel_exists: "\<exists>resp. ExecuteParallel w request (Some resp)"
  using ExecuteParallel_returns [of w request] ExecuteParallel_Some by metis

lemma demo_exec:
  "executeTask demo_world (new_task demo_request 0 ''a'') =
     \<lparr>Index = 0, Success = True, Response = Some ''ok'', Error = None, Duration = 10,
      IsTimeout = False\<rparr>"
  "executeTask demo_world (new_task demo_request 1 ''b'') =
     \<lparr>Index = 1, Success = False, Response = None,
      Error = Some ''webhook returned status 404: not found'', Duration = 11,
      IsTimeout = False\<rparr>"
  "executeTask demo_world (new_task demo_request 2 ''c'') =
     \<lparr>Index = 2, Success = False, Response = None,
      Error = Some ''request timeout after 30 seconds'', Duration = 12, IsTimeout = True\<rparr>"
  by (simp_all add: executeTask_unfold demo_defs demo_request_def new_task_def itoa_def
      digits.simps)

lemma demo_exec_Suc:
  "executeTask demo_world (new_task demo_request (Suc 0) ''b'') =
     \<lparr>Index = 1, Success = False, Response = None,
      Error = Some ''webhook returned status 404: not found'', Duration = 11,
      IsTimeout = False\<rparr>"
  "executeTask demo_world (new_task demo_request (Suc (Suc 0)) ''c'') =
     \<lparr>Index = 2, Success = False, Response = None,
      Error = Some ''request timeout after 30 seconds'', Duration = 12, IsTimeout = True\<rparr>"
  by (simp_all add: executeTask_unfold demo_defs demo_request_def new_task_def itoa_def
      digits.simps)


section \<open>Claims about the executor\<close>

text \<open>
  \<^bold>\<open>C3\<close>, as stated, fails: in the example world the call of task 4 returns a
  response with status 200, the body cannot be read, and the result is no success.
\<close>

theorem executeTask_status_not_decisive:
  "outbound demo_world (demo_task 4 ''http://h/x'' [] ''a'') \<noteq> []
   \<and> client_Do demo_world 4 (hd (outbound demo_world (demo_task 4 ''http://h/x'' [] ''a'')))
       = DoResponse \<lparr>StatusCode = 200, Body = Inl ''unexpected EOF''\<rparr>
   \<and> Success (executeTask demo_world (demo_task 4 ''http://h/x'' [] ''a'')) = False"
proof -
  let ?t = "demo_task 4 ''http://h/x'' [] ''a''"
  have o: "outbound demo_world ?t = [hd (outbound demo_world ?t)]"
    by (rule demo_outbound) simp_all
  have d: "client_Do demo_world (t_Index ?t) (hd (outbound demo_world ?t))
      = DoResponse \<lparr>StatusCode = 200, Body = Inl ''unexpected EOF''\<rparr>"
    by (simp add: demo_defs)
  have "Success (executeTask demo_world ?t) = False"
    by (simp add: exec_do_response [OF o d])
  moreover from o have "outbound demo_world ?t \<noteq> []" by (metis list.distinct(1))
  moreover from d have "client_Do demo_world 4 (hd (outbound demo_world ?t))
      = DoResponse \<lparr>StatusCode = 200, Body = Inl ''unexpected EOF''\<rparr>"
    by (simp add: demo_task_def)
  ultimately show ?thesis by blast
qed

text \<open>
  \<^bold>\<open>C3\<close>, amended.  When the outbound call returns a response and its body is read
  without error, the result is a success exactly when the status is in [200, 300).  A
  success holds the body verbatim and no error; any other status gives no success, no
  response bytes and the error text \<open>webhook returned status <code>: <body>\<close>, which
  contains the decimal status code and the body verbatim.
\<close>

theorem executeTask_status_classification:
  assumes "outbound w task = [req]"
      and "client_Do w (t_Index task) req = DoResponse resp"
      and "Body resp = Inr body"
  shows "(Success (executeTask w task) \<longleftrightarrow> 200 \<le> StatusCode resp \<and> StatusCode resp < 300)
       \<and> (Success (executeTask w task) \<longrightarrow>
            Response (executeTask w task) = Some body \<and> Error (executeTask w task) = None)
       \<and> (\<not> Success (executeTask w task) \<longrightarrow>
            Response (executeTask w task) = None
          \<and> Error (executeTask w task)
              = Some (''webhook returned status '' @ itoa (StatusCode resp) @ '': '' @ body)
          \<and> sublist (itoa (StatusCode resp)) (the (Error (executeTask w task)))
          \<and> sublist body (the (Error (executeTask w task))))"
proof -
  have "sublist body ((''webhook returned status '' @ itoa (StatusCode resp) @ '': '') @ body)"
    by (rule sublist_append_leftI)
  then have "sublist body (''webhook returned status '' @ itoa (StatusCode resp) @ '': '' @ body)"
    by simp
  moreover have "sublist (itoa (StatusCode resp))
      (''webhook returned status '' @ itoa (StatusCode resp) @ ('': '' @ body))"
    by (rule sublist_appendI)
  ultimately show ?thesis
    by (simp add: exec_do_response [OF assms(1,2)] assms(3))
qed

theorem executeTask_status_classification_witness:
  "Success (executeTask demo_world (demo_task 0 ''http://h/x'' [] ''a''))
   \<and> Response (executeTask demo_world (demo_task 0 ''http://h/x'' [] ''a'')) = Some ''ok''
   \<and> \<not> Success (executeTask demo_world (demo_task 1 ''http://h/x'' [] ''a''))
   \<and> Error (executeTask demo_world (demo_task 1 ''http://h/x'' [] ''a''))
       = Some ''webhook returned status 404: not found''"
proof -
  let ?t0 = "demo_task 0 ''http://h/x'' [] ''a''"
  let ?t1 = "demo_task 1 ''http://h/x'' [] ''a''"
  have o0: "outbound demo_world ?t0 = [hd (outbound demo_world ?t0)]"
    by (rule demo_outbound) simp_all
  have d0: "client_Do demo_world (t_Index ?t0) (hd (outbound demo_world ?t0))
      = DoResponse \<lparr>StatusCode = 200, Body = Inr ''ok''\<rparr>"
    by (simp add: demo_defs)
  have b0: "Body \<lparr>StatusCode = 200, Body = Inr ''ok''\<rparr> = Inr ''ok''" by simp
  have o1: "outbound demo_world ?t1 = [hd (outbound demo_world ?t1)]"
    by (rule demo_outbound) simp_all
  have d1: "client_Do demo_world (t_Index ?t1) (hd (outbound demo_world ?t1))
      = DoResponse \<lparr>StatusCode = 404, Body = Inr ''not found''\<rparr>"
    by (simp add: demo_defs)
  have b1: "Body \<lparr>StatusCode = 404, Body = Inr ''not found''\<rparr> = Inr ''not found''" by simp
  have i: "itoa 404 = ''404''" by (simp add: itoa_def digits.simps)
  from executeTask_status_classification [OF o0 d0 b0]
       executeTask_status_classification [OF o1 d1 b1] i
  show ?thesis by simp
qed




text \<open>
  \<^bold>\<open>C7\<close>.  Every request \<open>executeTask\<close> hands to \<open>client.Do\<close> has its \<open>Authorization\<close>
  header set to the task's auth value, verbatim, when that value is not empty, and has no
  \<open>Authorization\<close> header at all when it is empty; the only other header is
  \<open>Content-Type: application/json\<close>.  Whenever the payload serialises and the request can
  be constructed, exactly one such request is sent.  The statement is about the request as
  \<open>executeTask\<close> passes it on.
\<close>

theorem executeTask_authorization_header:
  "(\<forall>req \<in> set (outbound w task).
      req_header req ''Authorization''
        = (if t_AuthHeader task = [] then None else Some (t_AuthHeader task))
    \<and> req_header req ''Content-Type'' = Some ''application/json''
    \<and> dom (req_header req) \<subseteq> {''Content-Type'', ''Authorization''})
   \<and> (\<forall>b. json_Marshal w (t_Payload task) = Inr b \<and> url_error w (t_WebhookURL task) = None
         \<longrightarrow> length (outbound w task) = 1)"
proof (cases "json_Marshal w (t_Payload task)")
  case (Inl err)
  then show ?thesis by (simp add: outbound_def io_marshal_fails)
next
  case (Inr b)
  show ?thesis
  proof (cases "url_error w (t_WebhookURL task)")
    case (Some err)
    with Inr show ?thesis by (simp add: outbound_def io_request_fails)
  next
    case None
    from io_sent [OF Inr None] show ?thesis by (auto simp: outbound_def)
  qed
qed

theorem executeTask_authorization_header_witness:
  "req_header (hd (outbound demo_world (demo_task 0 ''http://h/x'' ''Bearer k'' ''a'')))
       ''Authorization'' = Some ''Bearer k''
   \<and> req_header (hd (outbound demo_world (demo_task 0 ''http://h/x'' [] ''a'')))
       ''Authorization'' = None"
proof -
  let ?ta = "demo_task 0 ''http://h/x'' ''Bearer k'' ''a''"
  let ?tn = "demo_task 0 ''http://h/x'' [] ''a''"
  have "outbound demo_world ?ta = [hd (outbound demo_world ?ta)]"
    by (rule demo_outbound) simp_all
  then have a: "hd (outbound demo_world ?ta) \<in> set (outbound demo_world ?ta)"
    by (metis list.set_intros(1))
  have "outbound demo_world ?tn = [hd (outbound demo_world ?tn)]"
    by (rule demo_outbound) simp_all
  then have n: "hd (outbound demo_world ?tn) \<in> set (outbound demo_world ?tn)"
    by (metis list.set_intros(1))
  from executeTask_authorization_header [of demo_world ?ta] a
  have "req_header (hd (outbound demo_world ?ta)) ''Authorization''
      = (if t_AuthHeader ?ta = [] then None else Some (t_AuthHeader ?ta))" by blast
  moreover from executeTask_authorization_header [of demo_world ?tn] n
  have "req_header (hd (outbound demo_world ?tn)) ''Authorization''
      = (if t_AuthHeader ?tn = [] then None else Some (t_AuthHeader ?tn))" by blast
  ultimately show ?thesis by (simp add: demo_task_def)
qed

text \<open>
  \<^bold>\<open>C9\<close>.  When the outbound call returns a response but reading its body fails,
  \<open>executeTask\<close> reports a generic failure: not a success, not a timeout, no response
  bytes, and the error text \<open>failed to read response body: \<dots>\<close>.  The status code plays
  no part, so this holds for a status in [200, 300) as for any other.
\<close>

theorem executeTask_body_read_failure:
  assumes "outbound w task = [req]"
      and "client_Do w (t_Index task) req = DoResponse resp"
      and "Body resp = Inl err"
  shows "\<not> Success (executeTask w task) \<and> \<not> IsTimeout (executeTask w task)
       \<and> Response (executeTask w task) = None
       \<and> Error (executeTask w task) = Some (''failed to read response body: '' @ err)"
  by (simp add: exec_do_response [OF assms(1,2)] assms(3))

theorem executeTask_body_read_failure_witness:
  "StatusCode \<lparr>StatusCode = 200, Body = Inl ''unexpected EOF''\<rparr> = 200
   \<and> \<not> Success (executeTask demo_world (demo_task 4 ''http://h/x'' [] ''a''))
   \<and> Error (executeTask demo_world (demo_task 4 ''http://h/x'' [] ''a''))
       = Some ''failed to read response body: unexpected EOF''"
proof -
  let ?t = "demo_task 4 ''http://h/x'' [] ''a''"
  have o: "outbound demo_world ?t = [hd (outbound demo_world ?t)]"
    by (rule demo_outbound) simp_all
  have d: "client_Do demo_world (t_Index ?t) (hd (outbound demo_world ?t))
      = DoResponse \<lparr>StatusCode = 200, Body = Inl ''unexpected EOF''\<rparr>"
    by (simp add: demo_defs)
  have b: "Body \<lparr>StatusCode = 200, Body = Inl ''unexpected EOF''\<rparr> = Inl ''unexpected EOF''"
    by simp
  from executeTask_body_read_failure [OF o d b] show ?thesis by simp
qed

section \<open>Claims about the batch\<close>

text \<open>
  \<^bold>\<open>C1\<close>.  Whatever the order in which the goroutines finish, the response has one
  result per payload, and the result at position \<open>i\<close> has index \<open>i\<close> and belongs to payload
  \<open>i\<close>: its success flag, its duration and its response bytes are those \<open>executeTask\<close>
  returns for the task built from that payload.  The first part says that every order of
  completion is a run of the dispatcher, the second that every run of \<open>ExecuteParallel\<close>
  ends in such a response.
\<close>

theorem ExecuteParallel_results_in_order:
  "(\<forall>ord. mset ord = mset (create_tasks request 0 (Payloads request)) \<longrightarrow>
       executeTasksParallel w (create_tasks request 0 (Payloads request))
         (Some (map (executeTask w) ord)))
   \<and> (\<forall>out. ExecuteParallel w request out \<longrightarrow>
        (\<exists>resp. out = Some resp
           \<and> length (Results resp) = length (Payloads request)
           \<and> (\<forall>i < length (Payloads request).
                wr_Index (Results resp ! i) = i
              \<and> wr_Success (Results resp ! i)
                  = Success (executeTask w (new_task request i (Payloads request ! i)))
              \<and> wr_Duration (Results resp ! i)
                  = Duration (executeTask w (new_task request i (Payloads request ! i)))
              \<and> wr_Response (Results resp ! i)
                  = (if Success (executeTask w (new_task request i (Payloads request ! i)))
                     then Response (executeTask w (new_task request i (Payloads request ! i)))
                     else None))))"
proof -
  have a: "executeTasksParallel w (create_tasks request 0 (Payloads request))
         (Some (map (executeTask w) ord))"
    if "mset ord = mset (create_tasks request 0 (Payloads request))" for ord
    using that by (rule executeTasksParallel_any_order)
  have b: "\<exists>resp. out = Some resp
           \<and> length (Results resp) = length (Payloads request)
           \<and> (\<forall>i < length (Payloads request).
                wr_Index (Results resp ! i) = i
              \<and> wr_Success (Results resp ! i)
                  = Success (executeTask w (new_task request i (Payloads request ! i)))
              \<and> wr_Duration (Results resp ! i)
                  = Duration (executeTask w (new_task request i (Payloads request ! i)))
              \<and> wr_Response (Results resp ! i)
                  = (if Success (executeTask w (new_task request i (Payloads request ! i)))
                     then Response (executeTask w (new_task request i (Payloads request ! i)))
                     else None))"
    if run: "ExecuteParallel w request out" for out
  proof -
    from run obtain resp where o: "out = Some resp" by (rule ExecuteParallel_Some)
    with run have e: "ExecuteParallel w request (Some resp)" by simp
    have "length (Results resp) = length (Payloads request)"
      by (rule ExecuteParallel_length [OF e])
    moreover have "wr_Index (Results resp ! i) = i
          \<and> wr_Success (Results resp ! i)
              = Success (executeTask w (new_task request i (Payloads request ! i)))
          \<and> wr_Duration (Results resp ! i)
              = Duration (executeTask w (new_task request i (Payloads request ! i)))
          \<and> wr_Response (Results resp ! i)
              = (if Success (executeTask w (new_task request i (Payloads request ! i)))
                 then Response (executeTask w (new_task request i (Payloads request ! i)))
                 else None)"
      if "i < length (Payloads request)" for i
      by (simp add: ExecuteParallel_entry [OF e that])
    ultimately show ?thesis using o by blast
  qed
  from a b show ?thesis by blast
qed

theorem ExecuteParallel_results_in_order_witness:
  "\<exists>resp. aggregate 3 20 (map (executeTask demo_world)
             (rev (create_tasks demo_request 0 (Payloads demo_request)))) = Some resp
     \<and> ExecuteParallel demo_world demo_request (Some resp)
     \<and> length (Results resp) = 3
     \<and> wr_Index (Results resp ! 0) = 0 \<and> wr_Success (Results resp ! 0)
     \<and> wr_Response (Results resp ! 0) = Some ''ok''
     \<and> wr_Index (Results resp ! 1) = 1 \<and> \<not> wr_Success (Results resp ! 1)
     \<and> wr_Index (Results resp ! 2) = 2 \<and> \<not> wr_Success (Results resp ! 2)"
proof -
  let ?tasks = "create_tasks demo_request 0 (Payloads demo_request)"
  note t = ExecuteParallel_results_in_order [where w = demo_world and request = demo_request]
  have m: "mset (rev ?tasks) = mset ?tasks" by simp
  from t have "\<forall>ord. mset ord = mset ?tasks \<longrightarrow>
      executeTasksParallel demo_world ?tasks (Some (map (executeTask demo_world) ord))"
    by (rule conjunct1)
  from this [rule_format, OF m]
  have "executeTasksParallel demo_world ?tasks
      (Some (map (executeTask demo_world) (rev ?tasks)))" .
  from ExecuteParallel.collected [OF this]
  have "ExecuteParallel demo_world demo_request
     (aggregate (length (Payloads demo_request)) (batch_since_start demo_world)
        (map (executeTask demo_world) (rev ?tasks)))" .
  moreover have "length (Payloads demo_request) = 3" by (simp add: demo_request_def)
  moreover have "batch_since_start demo_world = 20" by (simp add: demo_world_def)
  ultimately have run: "ExecuteParallel demo_world demo_request
     (aggregate 3 20 (map (executeTask demo_world) (rev ?tasks)))" by simp
  from t have "\<forall>out. ExecuteParallel demo_world demo_request out \<longrightarrow>
        (\<exists>resp. out = Some resp
           \<and> length (Results resp) = length (Payloads demo_request)
           \<and> (\<forall>i < length (Payloads demo_request).
                wr_Index (Results resp ! i) = i
              \<and> wr_Success (Results resp ! i)
                  = Success (executeTask demo_world
                      (new_task demo_request i (Payloads demo_request ! i)))
              \<and> wr_Duration (Results resp ! i)
                  = Duration (executeTask demo_world
                      (new_task demo_request i (Payloads demo_request ! i)))
              \<and> wr_Response (Results resp ! i)
                  = (if Success (executeTask demo_world
                        (new_task demo_request i (Payloads demo_request ! i)))
                     then Response (executeTask demo_world
                        (new_task demo_request i (Payloads demo_request ! i)))
                     else None)))"
    by (rule conjunct2)
  from this [rule_format, OF run] obtain resp
    where o: "aggregate 3 20 (map (executeTask demo_world) (rev ?tasks)) = Some resp"
      and l: "length (Results resp) = length (Payloads demo_request)"
      and a: "\<forall>i < length (Payloads demo_request).
          wr_Index (Results resp ! i) = i
        \<and> wr_Success (Results resp ! i)
            = Success (executeTask demo_world
                (new_task demo_request i (Payloads demo_request ! i)))
        \<and> wr_Duration (Results resp ! i)
            = Duration (executeTask demo_world
                (new_task demo_request i (Payloads demo_request ! i)))
        \<and> wr_Response (Results resp ! i)
            = (if Success (executeTask demo_world
                  (new_task demo_request i (Payloads demo_request ! i)))
               then Response (executeTask demo_world
                  (new_task demo_request i (Payloads demo_request ! i)))
               else None)"
    by blast
  have p: "Payloads demo_request = [''a'', ''b'', ''c'']" by (simp add: demo_request_def)
  from run o have e: "ExecuteParallel demo_world demo_request (Some resp)" by simp
  have "wr_Index (Results resp ! 0) = 0 \<and> wr_Success (Results resp ! 0)
     \<and> wr_Response (Results resp ! 0) = Some ''ok''"
    using a [rule_format, of 0] by (simp add: p demo_exec)
  moreover have "wr_Index (Results resp ! 1) = 1 \<and> \<not> wr_Success (Results resp ! 1)"
    using a [rule_format, of 1] by (simp add: p demo_exec_Suc)
  moreover have "wr_Index (Results resp ! 2) = 2 \<and> \<not> wr_Success (Results resp ! 2)"
    using a [rule_format, of 2] by (simp add: p demo_exec)
  moreover from l have "length (Results resp) = 3" by (simp add: p)
  ultimately show ?thesis using o e by blast
qed

text \<open>
  \<^bold>\<open>C2\<close>.  In every response, successful plus failed requests make the total, and the
  timed-out requests are at most the failed ones.  The total is the number of payloads;
  the failed counter counts the tasks that did not succeed and the timeout counter the
  tasks marked as timed out, each of which is among the failed ones.
\<close>

theorem ExecuteParallel_summary_arithmetic:
  assumes "ExecuteParallel w request out"
  shows "\<exists>resp. out = Some resp
       \<and> SuccessfulRequests (Summary resp) + FailedRequests (Summary resp)
           = TotalRequests (Summary resp)
       \<and> TimeoutRequests (Summary resp) \<le> FailedRequests (Summary resp)
       \<and> TotalRequests (Summary resp) = length (Payloads request)
       \<and> FailedRequests (Summary resp)
           = length (filter (\<lambda>r. \<not> Success r)
               (map (executeTask w) (create_tasks request 0 (Payloads request))))
       \<and> TimeoutRequests (Summary resp)
           = length (filter IsTimeout
               (map (executeTask w) (create_tasks request 0 (Payloads request))))"
proof -
  let ?es = "map (executeTask w) (create_tasks request 0 (Payloads request))"
  from assms obtain resp where o: "out = Some resp" by (rule ExecuteParallel_Some)
  with assms have e: "ExecuteParallel w request (Some resp)" by simp
  note s = ExecuteParallel_summary [OF e]
  have "length (filter Success ?es) + length (filter (\<lambda>r. \<not> Success r) ?es) = length ?es"
    by (rule sum_length_filter_compl)
  then have a: "SuccessfulRequests (Summary resp) + FailedRequests (Summary resp)
      = TotalRequests (Summary resp)"
    using s by (simp add: length_create_tasks)
  have "filter (\<lambda>r. \<not> Success r \<and> IsTimeout r) ?es
      = filter IsTimeout (filter (\<lambda>r. \<not> Success r) ?es)"
    by (simp add: conj_commute)
  then have "length (filter (\<lambda>r. \<not> Success r \<and> IsTimeout r) ?es)
      \<le> length (filter (\<lambda>r. \<not> Success r) ?es)"
    by (simp only: length_filter_le)
  then have b: "TimeoutRequests (Summary resp) \<le> FailedRequests (Summary resp)"
    using s by simp
  have "(\<not> Success r \<and> IsTimeout r) = IsTimeout r" if "r \<in> set ?es" for r
  proof -
    from that obtain t where "r = executeTask w t" by auto
    with executeTask_kinds [of w t] show ?thesis by (cases "Success r") simp_all
  qed
  then have "filter (\<lambda>r. \<not> Success r \<and> IsTimeout r) ?es = filter IsTimeout ?es"
    by (intro filter_cong) simp_all
  then have c: "TimeoutRequests (Summary resp) = length (filter IsTimeout ?es)"
    using s by simp
  from a b c s o show ?thesis by simp
qed

theorem ExecuteParallel_summary_arithmetic_witness:
  "\<exists>resp. ExecuteParallel demo_world demo_request (Some resp)
     \<and> TotalRequests (Summary resp) = 3 \<and> SuccessfulRequests (Summary resp) = 1
     \<and> FailedRequests (Summary resp) = 2 \<and> TimeoutRequests (Summary resp) = 1"
proof -
  from ExecuteParallel_exists obtain resp
    where e: "ExecuteParallel demo_world demo_request (Some resp)" by blast
  have p: "Payloads demo_request = [''a'', ''b'', ''c'']" by (simp add: demo_request_def)
  from ExecuteParallel_summary_arithmetic [OF e]
  have "TotalRequests (Summary resp) = 3 \<and> SuccessfulRequests (Summary resp) = 1
     \<and> FailedRequests (Summary resp) = 2 \<and> TimeoutRequests (Summary resp) = 1"
    by (simp add: p demo_exec_Suc demo_exec)
  with e show ?thesis by blast
qed

text \<open>
  \<^bold>\<open>C6\<close>.  With no payloads, \<open>ExecuteParallel\<close> returns, and can only return, the response
  with no results and a summary whose total, successful, failed and timeout counts are
  zero.  The dispatcher neither blocks nor faults: from its first state the one step
  possible is the closing of the channel, and with it the collecting loop has ended.
\<close>

theorem ExecuteParallel_no_payloads:
  assumes "Payloads request = []"
  shows "ExecuteParallel w request
           (Some \<lparr>Results = [],
                  Summary = \<lparr>TotalRequests = 0, SuccessfulRequests = 0, FailedRequests = 0,
                             TimeoutRequests = 0, TotalDuration = batch_since_start w\<rparr>\<rparr>)
       \<and> (\<forall>out. ExecuteParallel w request out \<longrightarrow>
             out = Some \<lparr>Results = [],
                  Summary = \<lparr>TotalRequests = 0, SuccessfulRequests = 0, FailedRequests = 0,
                             TimeoutRequests = 0, TotalDuration = batch_since_start w\<rparr>\<rparr>)
       \<and> par_step w (par_init (create_tasks request 0 (Payloads request)))
             ((par_init (create_tasks request 0 (Payloads request)))\<lparr>closed := True\<rparr>)
       \<and> par_final ((par_init (create_tasks request 0 (Payloads request)))\<lparr>closed := True\<rparr>)
       \<and> (\<forall>s. par_step w (par_init (create_tasks request 0 (Payloads request))) s \<longrightarrow>
             s = (par_init (create_tasks request 0 (Payloads request)))\<lparr>closed := True\<rparr>)"
proof -
  let ?E = "Some \<lparr>Results = [],
                  Summary = \<lparr>TotalRequests = 0, SuccessfulRequests = 0, FailedRequests = 0,
                             TimeoutRequests = 0, TotalDuration = batch_since_start w\<rparr>\<rparr>"
  let ?s0 = "par_init (create_tasks request 0 (Payloads request))"
  have out: "out = ?E" if "ExecuteParallel w request out" for out
    using ExecuteParallel_response [OF that] assms by simp
  from ExecuteParallel_exists obtain resp where e: "ExecuteParallel w request (Some resp)"
    by blast
  with out [OF e] have a: "ExecuteParallel w request ?E" by simp
  have c: "par_step w ?s0 (?s0\<lparr>closed := True\<rparr>)"
    by (rule par_step.close) (simp_all add: par_init_def assms)
  have d: "par_final (?s0\<lparr>closed := True\<rparr>)"
    by (simp add: par_final_def par_init_def assms)
  have f: "s = ?s0\<lparr>closed := True\<rparr>" if "par_step w ?s0 s" for s
    using that by (cases rule: par_step.cases) (simp_all add: par_init_def assms)
  from a out c d f show ?thesis by blast
qed

theorem ExecuteParallel_no_payloads_witness:
  "ExecuteParallel demo_world empty_request
     (Some \<lparr>Results = [],
            Summary = \<lparr>TotalRequests = 0, SuccessfulRequests = 0, FailedRequests = 0,
                       TimeoutRequests = 0, TotalDuration = 20\<rparr>\<rparr>)"
proof -
  have "Payloads empty_request = []" by (simp add: empty_request_def)
  from ExecuteParallel_no_payloads [OF this, of demo_world] show ?thesis
    by (simp add: demo_world_def)
qed



text \<open>
  \<^bold>\<open>C10\<close>.  The converting loop gives a result that did not succeed the error text
  \<open>timeout\<close> when it is marked as timed out (the executor's own message is dropped),
  else the text of its error, else \<open>unknown error\<close>.  In every response of
  \<open>ExecuteParallel\<close>, each entry without success has an error text that is not empty:
  \<open>timeout\<close> for a timed-out task, the executor's error text otherwise.
\<close>

theorem ExecuteParallel_error_text:
  "(\<forall>i r sm. \<not> Success r \<longrightarrow>
       wr_Error (fst (convert_result i r sm))
         = (if IsTimeout r then ''timeout''
            else case Error r of Some err \<Rightarrow> err | None \<Rightarrow> ''unknown error''))
   \<and> (\<forall>out. ExecuteParallel w request out \<longrightarrow>
        (\<exists>resp. out = Some resp
          \<and> (\<forall>i < length (Payloads request). \<not> wr_Success (Results resp ! i) \<longrightarrow>
                wr_Error (Results resp ! i) \<noteq> []
              \<and> (IsTimeout (executeTask w (new_task request i (Payloads request ! i)))
                   \<longrightarrow> wr_Error (Results resp ! i) = ''timeout'')
              \<and> (\<not> IsTimeout (executeTask w (new_task request i (Payloads request ! i)))
                   \<longrightarrow> Error (executeTask w (new_task request i (Payloads request ! i)))
                         = Some (wr_Error (Results resp ! i))))))"
proof -
  have a: "wr_Error (fst (convert_result i r sm))
         = (if IsTimeout r then ''timeout''
            else case Error r of Some err \<Rightarrow> err | None \<Rightarrow> ''unknown error'')"
    if "\<not> Success r" for i r sm
    using that by (simp add: fst_convert_result)
  have b: "\<exists>resp. out = Some resp
          \<and> (\<forall>i < length (Payloads request). \<not> wr_Success (Results resp ! i) \<longrightarrow>
                wr_Error (Results resp ! i) \<noteq> []
              \<and> (IsTimeout (executeTask w (new_task request i (Payloads request ! i)))
                   \<longrightarrow> wr_Error (Results resp ! i) = ''timeout'')
              \<and> (\<not> IsTimeout (executeTask w (new_task request i (Payloads request ! i)))
                   \<longrightarrow> Error (executeTask w (new_task request i (Payloads request ! i)))
                         = Some (wr_Error (Results resp ! i))))"
    if run: "ExecuteParallel w request out" for out
  proof -
    from run obtain resp where o: "out = Some resp" by (rule ExecuteParallel_Some)
    with run have e: "ExecuteParallel w request (Some resp)" by simp
    have "wr_Error (Results resp ! i) \<noteq> []
      \<and> (IsTimeout (executeTask w (new_task request i (Payloads request ! i)))
           \<longrightarrow> wr_Error (Results resp ! i) = ''timeout'')
      \<and> (\<not> IsTimeout (executeTask w (new_task request i (Payloads request ! i)))
           \<longrightarrow> Error (executeTask w (new_task request i (Payloads request ! i)))
                 = Some (wr_Error (Results resp ! i)))"
      if i: "i < length (Payloads request)" and f: "\<not> wr_Success (Results resp ! i)" for i
    proof -
      let ?r = "executeTask w (new_task request i (Payloads request ! i))"
      note en = ExecuteParallel_entry [OF e i]
      from f en have ns: "\<not> Success ?r" by simp
      with executeTask_kinds [of w "new_task request i (Payloads request ! i)"]
      obtain err where er: "Error ?r = Some err" and ne: "err \<noteq> []" by auto
      from en ns er ne show ?thesis by simp
    qed
    with o show ?thesis by blast
  qed
  from a b show ?thesis by blast
qed

theorem ExecuteParallel_error_text_witness:
  "\<exists>resp. ExecuteParallel demo_world demo_request (Some resp)
     \<and> wr_Error (Results resp ! 1) = ''webhook returned status 404: not found''
     \<and> wr_Error (Results resp ! 2) = ''timeout''
     \<and> Error (executeTask demo_world (new_task demo_request 2 ''c''))
         = Some ''request timeout after 30 seconds''
     \<and> wr_Error (fst (convert_result 0 zero_exec_result
          \<lparr>TotalRequests = 1, SuccessfulRequests = 0, FailedRequests = 0,
           TimeoutRequests = 0, TotalDuration = 0\<rparr>)) = ''unknown error''"
proof -
  note t = ExecuteParallel_error_text [where w = demo_world and request = demo_request]
  from ExecuteParallel_exists obtain resp
    where e: "ExecuteParallel demo_world demo_request (Some resp)" by blast
  have p: "Payloads demo_request = [''a'', ''b'', ''c'']" by (simp add: demo_request_def)
  have s1: "\<not> wr_Success (Results resp ! 1)"
    using ExecuteParallel_entry [OF e, of 1] by (simp add: p demo_exec_Suc)
  have s2: "\<not> wr_Success (Results resp ! 2)"
    using ExecuteParallel_entry [OF e, of 2] by (simp add: p demo_exec)
  have l: "1 < length (Payloads demo_request)" "2 < length (Payloads demo_request)"
    by (simp_all add: p)
  from t have "\<forall>out. ExecuteParallel demo_world demo_request out \<longrightarrow>
        (\<exists>resp. out = Some resp
          \<and> (\<forall>i < length (Payloads demo_request). \<not> wr_Success (Results resp ! i) \<longrightarrow>
                wr_Error (Results resp ! i) \<noteq> []
              \<and> (IsTimeout (executeTask demo_world
                     (new_task demo_request i (Payloads demo_request ! i)))
                   \<longrightarrow> wr_Error (Results resp ! i) = ''timeout'')
              \<and> (\<not> IsTimeout (executeTask demo_world
                       (new_task demo_request i (Payloads demo_request ! i)))
                   \<longrightarrow> Error (executeTask demo_world
                           (new_task demo_request i (Payloads demo_request ! i)))
                         = Some (wr_Error (Results resp ! i)))))"
    by (rule conjunct2)
  from this [rule_format, OF e]
  have a: "\<forall>i < length (Payloads demo_request). \<not> wr_Success (Results resp ! i) \<longrightarrow>
                wr_Error (Results resp ! i) \<noteq> []
              \<and> (IsTimeout (executeTask demo_world
                     (new_task demo_request i (Payloads demo_request ! i)))
                   \<longrightarrow> wr_Error (Results resp ! i) = ''timeout'')
              \<and> (\<not> IsTimeout (executeTask demo_world
                       (new_task demo_request i (Payloads demo_request ! i)))
                   \<longrightarrow> Error (executeTask demo_world
                           (new_task demo_request i (Payloads demo_request ! i)))
                         = Some (wr_Error (Results resp ! i)))"
    by (simp only: option.inject simp_thms ex_simps)
  have x1: "wr_Error (Results resp ! 1) = ''webhook returned status 404: not found''"
    using a [rule_format, OF l(1) s1] by (simp add: p demo_exec_Suc)
  have x2: "wr_Error (Results resp ! 2) = ''timeout''"
    using a [rule_format, OF l(2) s2] by (simp add: p demo_exec)
  from t have "\<forall>i r sm. \<not> Success r \<longrightarrow>
       wr_Error (fst (convert_result i r sm))
         = (if IsTimeout r then ''timeout''
            else case Error r of Some err \<Rightarrow> err | None \<Rightarrow> ''unknown error'')"
    by (rule conjunct1)
  from this [rule_format, of zero_exec_result 0
      "\<lparr>TotalRequests = 1, SuccessfulRequests = 0, FailedRequests = 0,
           TimeoutRequests = 0, TotalDuration = 0\<rparr>"]
  have x3: "wr_Error (fst (convert_result 0 zero_exec_result
          \<lparr>TotalRequests = 1, SuccessfulRequests = 0, FailedRequests = 0,
           TimeoutRequests = 0, TotalDuration = 0\<rparr>)) = ''unknown error''"
    by (simp add: zero_exec_result_def)
  have x4: "Error (executeTask demo_world (new_task demo_request 2 ''c''))
      = Some ''request timeout after 30 seconds''"
    by (simp add: demo_exec)
  show ?thesis
    by (rule exI [of _ resp]) (intro conjI e x1 x2 x3 x4)
qed

section \<open>Claim about the boundary\<close>

text \<open>
  \<^bold>\<open>C5\<close>, as stated, fails: a request with timeout 5000 is not handed to the core with
  timeout 3600; the handler answers it with status 400.
\<close>

theorem Execute_rejects_timeout_above_range:
  "Execute_request demo_handler_env ''POST''
     (Inr \<lparr>WebhookURL = ''http://h/x'', AuthHeader = [], Payloads = [''a''], Timeout = 5000\<rparr>)
     = Inl \<lparr>er_status = 400, er_Error = ''validation failed'',
            er_Message = validation_text demo_handler_env [''Timeout'']\<rparr>
   \<and> Execute_request demo_handler_env ''POST''
     (Inr \<lparr>WebhookURL = ''http://h/x'', AuthHeader = [], Payloads = [''a''], Timeout = 5000\<rparr>)
     \<noteq> Inr \<lparr>WebhookURL = ''http://h/x'', AuthHeader = [], Payloads = [''a''], Timeout = 3600\<rparr>"
  by (simp add: Execute_request_def validator_Struct_def demo_handler_env_def demo_is_url_def
      demo_validation_text_def)

text \<open>
  \<^bold>\<open>C5\<close>, amended.  The handler replaces a timeout of 0 by 60 and hands a request to the
  core only with a timeout in [1, 3600]: the timeout the core sees is the one supplied, or
  60 when that was 0.  A request whose timeout is neither 0 nor in [1, 3600] is rejected
  with status 400 and never reaches the core.
\<close>

theorem Execute_timeout_default_and_range:
  "(\<forall>request. Execute_request he verb decoded = Inr request \<longrightarrow>
       1 \<le> Timeout request \<and> Timeout request \<le> 3600
     \<and> (\<exists>request0. decoded = Inr request0
           \<and> request = request0\<lparr>Timeout := (if Timeout request0 = 0 then 60
                                               else Timeout request0)\<rparr>))
   \<and> (\<forall>request0. decoded = Inr request0 \<and> verb = ''POST'' \<and> Timeout request0 \<noteq> 0
          \<and> (Timeout request0 < 1 \<or> 3600 < Timeout request0) \<longrightarrow>
        Execute_request he verb decoded
          = Inl \<lparr>er_status = 400, er_Error = ''validation failed'',
                 er_Message = validation_text he (validator_Struct he request0)\<rparr>)
   \<and> (\<forall>request0. decoded = Inr request0 \<and> verb = ''POST'' \<and> Timeout request0 = 0
          \<and> WebhookURL request0 \<noteq> [] \<and> is_url he (WebhookURL request0)
          \<and> Payloads request0 \<noteq> [] \<longrightarrow>
        Execute_request he verb decoded = Inr (request0\<lparr>Timeout := 60\<rparr>))"
proof -
  have a: "1 \<le> Timeout request \<and> Timeout request \<le> 3600
     \<and> (\<exists>request0. decoded = Inr request0
           \<and> request = request0\<lparr>Timeout := (if Timeout request0 = 0 then 60
                                               else Timeout request0)\<rparr>)"
    if "Execute_request he verb decoded = Inr request" for request
  proof (cases decoded)
    case (Inl err)
    with that show ?thesis by (simp add: Execute_request_def split: if_splits)
  next
    case (Inr request0)
    let ?r = "if Timeout request0 = 0 then request0\<lparr>Timeout := 60\<rparr> else request0"
    from that Inr have v: "validator_Struct he ?r = []" and r: "request = ?r"
      by (simp_all add: Execute_request_def Let_def split: if_splits)
    from v have "1 \<le> Timeout ?r \<and> Timeout ?r \<le> 3600"
      unfolding validator_Struct_def by (simp split: if_splits)
    with r Inr show ?thesis by (cases "Timeout request0 = 0") simp_all
  qed
  have b: "Execute_request he verb decoded
          = Inl \<lparr>er_status = 400, er_Error = ''validation failed'',
                 er_Message = validation_text he (validator_Struct he request0)\<rparr>"
    if "decoded = Inr request0" and "verb = ''POST''" and "Timeout request0 \<noteq> 0"
      and "Timeout request0 < 1 \<or> 3600 < Timeout request0" for request0
  proof -
    from that(4) have "validator_Struct he request0 \<noteq> []"
      by (auto simp: validator_Struct_def)
    with that(1-3) show ?thesis by (simp add: Execute_request_def)
  qed
  have c: "Execute_request he verb decoded = Inr (request0\<lparr>Timeout := 60\<rparr>)"
    if "decoded = Inr request0" and "verb = ''POST''" and "Timeout request0 = 0"
      and "WebhookURL request0 \<noteq> []" and "is_url he (WebhookURL request0)"
      and "Payloads request0 \<noteq> []" for request0
  proof -
    from that(4-6) have "validator_Struct he (request0\<lparr>Timeout := 60\<rparr>) = []"
      by (cases "Payloads request0") (simp_all add: validator_Struct_def)
    with that show ?thesis by (simp add: Execute_request_def)
  qed
  from a b c show ?thesis by blast
qed

theorem Execute_timeout_default_and_range_witness:
  "Execute_request demo_handler_env ''POST''
     (Inr \<lparr>WebhookURL = ''http://h/x'', AuthHeader = [], Payloads = [''a''], Timeout = 0\<rparr>)
     = Inr \<lparr>WebhookURL = ''http://h/x'', AuthHeader = [], Payloads = [''a''], Timeout = 60\<rparr>
   \<and> (1::int) \<le> 60 \<and> (60::int) \<le> 3600
   \<and> Execute_request demo_handler_env ''POST''
     (Inr \<lparr>WebhookURL = ''http://h/x'', AuthHeader = [], Payloads = [''a''], Timeout = -5\<rparr>)
     = Inl \<lparr>er_status = 400, er_Error = ''validation failed'',
            er_Message = validation_text demo_handler_env [''Timeout'']\<rparr>"
proof -
  let ?r0 = "\<lparr>WebhookURL = ''http://h/x'', AuthHeader = [], Payloads = [''a''], Timeout = 0\<rparr>"
  let ?rn = "\<lparr>WebhookURL = ''http://h/x'', AuthHeader = [], Payloads = [''a''], Timeout = -5\<rparr>"
  note t0 = Execute_timeout_default_and_range
    [where he = demo_handler_env and verb = "''POST''" and decoded = "Inr ?r0"]
  note tn = Execute_timeout_default_and_range
    [where he = demo_handler_env and verb = "''POST''" and decoded = "Inr ?rn"]
  have h0: "Inr ?r0 = Inr ?r0 \<and> ''POST'' = ''POST'' \<and> Timeout ?r0 = 0
      \<and> WebhookURL ?r0 \<noteq> [] \<and> is_url demo_handler_env (WebhookURL ?r0)
      \<and> Payloads ?r0 \<noteq> []"
    by (simp add: demo_handler_env_def demo_is_url_def)
  from t0 [THEN conjunct2, THEN conjunct2, rule_format, OF h0]
  have a: "Execute_request demo_handler_env ''POST'' (Inr ?r0)
      = Inr \<lparr>WebhookURL = ''http://h/x'', AuthHeader = [], Payloads = [''a''], Timeout = 60\<rparr>"
    by simp
  from t0 [THEN conjunct1, rule_format, OF a]
  have b: "(1::int) \<le> 60 \<and> (60::int) \<le> 3600" by simp
  have hn: "Inr ?rn = Inr ?rn \<and> ''POST'' = ''POST'' \<and> Timeout ?rn \<noteq> 0
      \<and> (Timeout ?rn < 1 \<or> 3600 < Timeout ?rn)"
    by simp
  from tn [THEN conjunct2, THEN conjunct1, rule_format, OF hn]
  have c: "Execute_request demo_handler_env ''POST'' (Inr ?rn)
     = Inl \<lparr>er_status = 400, er_Error = ''validation failed'',
            er_Message = validation_text demo_handler_env [''Timeout'']\<rparr>"
    by (simp add: validator_Struct_def demo_handler_env_def demo_is_url_def
        demo_validation_text_def)
  from a b c show ?thesis by (intro conjI) simp_all
qed

end
